theory Spec2Isabelle
  imports Main
begin

section \<open>Values of the type-erased kind \<open>any\<close>\<close>

text \<open>
  The package passes values of Go's empty interface \<open>any\<close> around: case inputs, expected
  values, log arguments and the operands of the assertions. An interface value is either
  the nil interface (no dynamic type at all) or a box holding a dynamic type and a value
  of that type. A nil pointer or a nil slice put into an \<open>any\<close> is a box: the dynamic type
  is there, only the reference inside is nil.

  \<open>gtype\<close> names the types that occur as element or pointee types; \<open>any\<close> is the fragment
  of Go values the assertions are exercised on. \<open>GErr s\<close> stands for the error value made
  by \<open>errors.New(s)\<close>, whose string form is \<open>s\<close>; \<open>GDuration\<close> and \<open>GTime\<close> are
  \<open>time.Duration\<close> and \<open>time.Time\<close> in nanoseconds; \<open>GUint64\<close> and \<open>GUint32\<close> are the
  unsigned integers of those widths.
\<close>

datatype gtype = TBool | TInt | TUint64 | TString | TAny | TError
  | TPtr gtype | TSlice gtype | TArray nat gtype

datatype any =
    GNil
  | GBool bool
  | GInt int
  | GUint64 nat
  | GUint32 nat
  | GString string
  | GErr string
  | GDuration int
  | GTime int
  | GNilPtr gtype
  | GPtr gtype any
  | GNilSlice gtype
  | GSlice gtype "any list"
  | GArray gtype "any list"

text \<open>
  The comparison \<open>value == nil\<close> on an operand of static type \<open>any\<close> or \<open>error\<close> holds for
  the nil interface only, which is \<open>value = GNil\<close> here. The other reading of "nil" looks
  through the box: the nil interface, or a box whose reference is nil.
\<close>

fun isNilReference :: "any \<Rightarrow> bool" where
  "isNilReference GNil = True"
| "isNilReference (GNilPtr t) = True"
| "isNilReference (GNilSlice t) = True"
| "isNilReference _ = False"


section \<open>Case: the table-driven test scenario\<close>

text \<open>
  \<open>caseImpl\<close> is the struct behind the \<open>Case\<close> interface. \<open>NewCase\<close> and \<open>CaseBuilder\<close>
  allocate on the heap and hand out pointers, and \<open>Build\<close> returns \<open>&b.caseImpl\<close>, the
  address of the struct embedded at offset 0 of the builder. The store below holds the
  allocated structs by address; a \<open>Case\<close> and a \<open>*caseBuilder\<close> are addresses into it.
\<close>

record caseImpl =
  name :: string
  input :: any
  want :: any
  wantErr :: bool
  err :: any

type_synonym ptr = nat

record store =
  cells :: "ptr \<Rightarrow> caseImpl"
  fresh :: ptr

definition alloc :: "caseImpl \<Rightarrow> store \<Rightarrow> ptr \<times> store" where
  "alloc v s = (fresh s, s\<lparr>cells := (cells s)(fresh s := v), fresh := Suc (fresh s)\<rparr>)"

definition Name :: "store \<Rightarrow> ptr \<Rightarrow> string" where
  "Name s c = name (cells s c)"

definition Input :: "store \<Rightarrow> ptr \<Rightarrow> any" where
  "Input s c = input (cells s c)"

definition Want :: "store \<Rightarrow> ptr \<Rightarrow> any" where
  "Want s c = want (cells s c)"

definition WantErr :: "store \<Rightarrow> ptr \<Rightarrow> bool" where
  "WantErr s c = wantErr (cells s c)"

definition Err :: "store \<Rightarrow> ptr \<Rightarrow> any" where
  "Err s c = err (cells s c)"

definition NewCase :: "string \<Rightarrow> any \<Rightarrow> any \<Rightarrow> bool \<Rightarrow> any \<Rightarrow> store \<Rightarrow> ptr \<times> store" where
  "NewCase nm inp wnt we er s =
     alloc \<lparr>name = nm, input = inp, want = wnt, wantErr = we, err = er\<rparr> s"

text \<open>\<open>&caseBuilder{caseImpl: caseImpl{name: name}}\<close>: the other fields are zero values.\<close>

definition CaseBuilder :: "string \<Rightarrow> store \<Rightarrow> ptr \<times> store" where
  "CaseBuilder nm s =
     alloc \<lparr>name = nm, input = GNil, want = GNil, wantErr = False, err = GNil\<rparr> s"

text \<open>
  The setters assign one field of the builder's struct in place and return the builder.
\<close>

definition caseBuilder_Name :: "string \<Rightarrow> ptr \<Rightarrow> store \<Rightarrow> ptr \<times> store" where
  "caseBuilder_Name nm b s = (b, s\<lparr>cells := (cells s)(b := (cells s b)\<lparr>name := nm\<rparr>)\<rparr>)"

definition caseBuilder_Input :: "any \<Rightarrow> ptr \<Rightarrow> store \<Rightarrow> ptr \<times> store" where
  "caseBuilder_Input v b s = (b, s\<lparr>cells := (cells s)(b := (cells s b)\<lparr>input := v\<rparr>)\<rparr>)"

definition caseBuilder_Want :: "any \<Rightarrow> ptr \<Rightarrow> store \<Rightarrow> ptr \<times> store" where
  "caseBuilder_Want v b s = (b, s\<lparr>cells := (cells s)(b := (cells s b)\<lparr>want := v\<rparr>)\<rparr>)"

definition caseBuilder_WantErr :: "bool \<Rightarrow> ptr \<Rightarrow> store \<Rightarrow> ptr \<times> store" where
  "caseBuilder_WantErr v b s = (b, s\<lparr>cells := (cells s)(b := (cells s b)\<lparr>wantErr := v\<rparr>)\<rparr>)"

definition caseBuilder_Err :: "any \<Rightarrow> ptr \<Rightarrow> store \<Rightarrow> ptr \<times> store" where
  "caseBuilder_Err v b s = (b, s\<lparr>cells := (cells s)(b := (cells s b)\<lparr>err := v\<rparr>)\<rparr>)"

text \<open>\<open>return &b.caseImpl\<close>: no copy is made, the Case is the builder's own struct.\<close>

definition Build :: "ptr \<Rightarrow> store \<Rightarrow> ptr \<times> store" where
  "Build b s = (b, s)"

text \<open>
  A chain \<open>x.M1(..).M2(..)\<close> calls each method on the pointer the previous one returned.
\<close>

definition chain :: "(ptr \<Rightarrow> store \<Rightarrow> ptr \<times> store) \<Rightarrow> ptr \<times> store \<Rightarrow> ptr \<times> store" where
  "chain m ps = m (fst ps) (snd ps)"

text \<open>One call of a builder setter, as data, to speak about arbitrary sequences of them.\<close>

datatype setter =
    SetName string
  | SetInput any
  | SetWant any
  | SetWantErr bool
  | SetErr any

fun call :: "setter \<Rightarrow> ptr \<Rightarrow> store \<Rightarrow> ptr \<times> store" where
  "call (SetName v) = caseBuilder_Name v"
| "call (SetInput v) = caseBuilder_Input v"
| "call (SetWant v) = caseBuilder_Want v"
| "call (SetWantErr v) = caseBuilder_WantErr v"
| "call (SetErr v) = caseBuilder_Err v"

fun calls :: "setter list \<Rightarrow> ptr \<times> store \<Rightarrow> ptr \<times> store" where
  "calls [] ps = ps"
| "calls (x # xs) ps = calls xs (chain (call x) ps)"

text \<open>
  The specification's reading of "last write wins": a field holds the last of the values
  written to it, or its initial value when nothing was written to it.
\<close>

definition lastOr :: "'a \<Rightarrow> 'a list \<Rightarrow> 'a" where
  "lastOr d vs = (if vs = [] then d else last vs)"

fun nameWrites :: "setter list \<Rightarrow> string list" where
  "nameWrites [] = []"
| "nameWrites (SetName v # xs) = v # nameWrites xs"
| "nameWrites (_ # xs) = nameWrites xs"

fun inputWrites :: "setter list \<Rightarrow> any list" where
  "inputWrites [] = []"
| "inputWrites (SetInput v # xs) = v # inputWrites xs"
| "inputWrites (_ # xs) = inputWrites xs"

fun wantWrites :: "setter list \<Rightarrow> any list" where
  "wantWrites [] = []"
| "wantWrites (SetWant v # xs) = v # wantWrites xs"
| "wantWrites (_ # xs) = wantWrites xs"

fun wantErrWrites :: "setter list \<Rightarrow> bool list" where
  "wantErrWrites [] = []"
| "wantErrWrites (SetWantErr v # xs) = v # wantErrWrites xs"
| "wantErrWrites (_ # xs) = wantErrWrites xs"

fun errWrites :: "setter list \<Rightarrow> any list" where
  "errWrites [] = []"
| "errWrites (SetErr v # xs) = v # errWrites xs"
| "errWrites (_ # xs) = errWrites xs"


section \<open>The host test context\<close>

text \<open>
  The runner drives a \<open>*testing.T\<close> of Go's standard library. What the library does with a
  call is outside the package, so the context is modelled by what the package can observe
  and cause: the calls that reached its log, in order, the flags \<open>failed\<close>, \<open>skipped\<close> and
  \<open>finished\<close>, and the way control leaves a call. A log entry keeps the format string and
  the arguments as they were passed; formatting them is the host's business.

  Control leaves a call in one of four ways: it returns; it ends the running goroutine
  through \<open>runtime.Goexit\<close>, which is how \<open>FailNow\<close>, \<open>Fatalf\<close> and \<open>Skipf\<close> stop a test; it
  panics with a value, which a deferred \<open>recover\<close> of the same goroutine can catch; or the
  test binary dies, as it does when a panic reaches the top of a goroutine.
\<close>

datatype outcome = Returned | Exited | Panicked any | Crashed

datatype event =
    Println "any list"
  | Printf string "any list"
  | Subtest string "event list" bool bool

type_synonym fnid = nat

record testing_T =
  tname :: string
  events :: "event list"
  failed :: bool
  skipped :: bool
  finished :: bool
  isParallel :: bool
  env :: "(string \<times> string) list"
  cleanups :: "fnid list"

definition T_Log :: "any list \<Rightarrow> testing_T \<Rightarrow> testing_T" where
  "T_Log args t = t\<lparr>events := events t @ [Println args]\<rparr>"

definition T_Logf :: "string \<Rightarrow> any list \<Rightarrow> testing_T \<Rightarrow> testing_T" where
  "T_Logf format args t = t\<lparr>events := events t @ [Printf format args]\<rparr>"

definition T_Fail :: "testing_T \<Rightarrow> testing_T" where
  "T_Fail t = t\<lparr>failed := True\<rparr>"

text \<open>\<open>Errorf\<close> is \<open>Logf\<close> followed by \<open>Fail\<close>: the test is marked failed and goes on.\<close>

definition T_Errorf :: "string \<Rightarrow> any list \<Rightarrow> testing_T \<Rightarrow> testing_T" where
  "T_Errorf format args t = T_Fail (T_Logf format args t)"

text \<open>
  \<open>FailNow\<close> marks the test failed and finished and calls \<open>runtime.Goexit\<close>; \<open>Fatalf\<close> is
  \<open>Logf\<close> followed by \<open>FailNow\<close>; \<open>Skipf\<close> is \<open>Logf\<close> followed by \<open>SkipNow\<close>, which marks the
  test skipped and finished and calls \<open>runtime.Goexit\<close>.
\<close>

definition T_FailNow :: "testing_T \<Rightarrow> outcome \<times> testing_T" where
  "T_FailNow t = (Exited, (T_Fail t)\<lparr>finished := True\<rparr>)"








section \<open>The runner\<close>

record R =
  title :: string
  caseNum :: int
  prefix :: string
  startTime :: int
  benchmark :: bool
  parallel :: bool
  T :: testing_T

text \<open>
  A method of the runner, and any statement of a test body, takes the runner to an
  outcome and the runner it leaves behind. Methods that return \<open>*R\<close> return their
  receiver, which is the runner in the result. \<open>caseNum\<close> is a Go \<open>int\<close>; each increment
  appends a line to the host's log, so the counter cannot come near the end of its range
  and is an unbounded integer here.
\<close>

type_synonym prog = "R \<Rightarrow> outcome \<times> R"

definition ret :: "(R \<Rightarrow> R) \<Rightarrow> prog" where
  "ret f r = (Returned, f r)"

text \<open>
  Sequential composition: the second statement runs only if the first one returned.
\<close>

definition seq :: "prog \<Rightarrow> prog \<Rightarrow> prog" where
  "seq p q r = (case p r of (Returned, r') \<Rightarrow> q r' | (oc, r') \<Rightarrow> (oc, r'))"

fun body :: "prog list \<Rightarrow> prog" where
  "body [] = ret id"
| "body (p # ps) = seq p (body ps)"

definition inT :: "(testing_T \<Rightarrow> testing_T) \<Rightarrow> R \<Rightarrow> R" where
  "inT f r = r\<lparr>T := f (T r)\<rparr>"

definition haltT :: "(testing_T \<Rightarrow> outcome \<times> testing_T) \<Rightarrow> prog" where
  "haltT f r = (case f (T r) of (oc, t') \<Rightarrow> (oc, r\<lparr>T := t'\<rparr>))"

definition checkMark :: string where
  "checkMark = [CHR 0x1B] @ ''[32m'' @ [CHR 0xE2, CHR 0x9C, CHR 0x93, CHR 0x1B] @ ''[0m''"

definition ballotX :: string where
  "ballotX = [CHR 0x1B] @ ''[31m'' @ [CHR 0xE2, CHR 0x9C, CHR 0x97, CHR 0x1B] @ ''[0m''"

text \<open>\<open>strconv.Itoa\<close>: the decimal digits, with a minus sign for a negative number.\<close>

definition digitChar :: "nat \<Rightarrow> char" where
  "digitChar n = ''0123456789'' ! (n mod 10)"

fun utoa :: "nat \<Rightarrow> string" where
  "utoa n = (if n < 10 then [digitChar n] else utoa (n div 10) @ [digitChar (n mod 10)])"

declare utoa.simps [simp del]

definition Itoa :: "int \<Rightarrow> string" where
  "Itoa i = (if i < 0 then CHR ''-'' # utoa (nat (- i)) else utoa (nat i))"

definition New :: "testing_T \<Rightarrow> string \<Rightarrow> int \<Rightarrow> R" where
  "New t ttl now =
     \<lparr>title = ttl, caseNum = 0, prefix = [], startTime = now, benchmark = False,
      parallel = False, T = T_Log [GString (''Test Case => '' @ ttl)] t\<rparr>"

definition Case :: "string \<Rightarrow> any list \<Rightarrow> prog" where
  "Case format args r =
     (let r1 = r\<lparr>caseNum := caseNum r + 1\<rparr>;
          r2 = r1\<lparr>prefix := ''Case '' @ Itoa (caseNum r1) @ '' -> ''\<rparr>
      in (Returned, inT (T_Logf (prefix r2 @ format) args) r2))"

text \<open>
  A subtest body \<open>func(tt *testing.T)\<close> is a closure: it is handed the subtest's own
  context \<open>tt\<close> and it still holds the runner \<open>r\<close>, which is bound to the parent's context.
  So it works on both.
\<close>

type_synonym subtest = "testing_T \<Rightarrow> R \<Rightarrow> outcome \<times> testing_T \<times> R"








definition prependTag :: "any \<Rightarrow> any list \<Rightarrow> any list" where
  "prependTag tag args = (if length args = 0 then [tag] else ([] @ [tag]) @ args)"

definition Pass :: "string \<Rightarrow> any list \<Rightarrow> prog" where
  "Pass format args =
     ret (inT (T_Logf (CHR 0x09 # ''%s '' @ format) (prependTag (GString checkMark) args)))"

definition Fail :: "string \<Rightarrow> any list \<Rightarrow> prog" where
  "Fail format args =
     ret (inT (T_Errorf (CHR 0x09 # ''%s '' @ format) (prependTag (GString ballotX) args)))"


definition Require :: "bool \<Rightarrow> string \<Rightarrow> any list \<Rightarrow> prog" where
  "Require cond desc args = (if cond then Pass desc args else Fail desc args)"

definition FailNow :: "bool \<Rightarrow> string \<Rightarrow> any list \<Rightarrow> prog" where
  "FailNow cond desc args =
     (if cond then Pass desc args else seq (Fail desc args) (haltT T_FailNow))"

definition AssertNoErrf :: "any \<Rightarrow> string \<Rightarrow> any list \<Rightarrow> prog" where
  "AssertNoErrf er desc args =
     (if er = GNil then Pass desc args
      else seq (Fail desc args)
             (seq (ret (inT (T_Logf ''requires no error, but found: %v'' [er])))
                (haltT T_FailNow)))"

definition AssertNoErr :: "any \<Rightarrow> prog" where
  "AssertNoErr er = AssertNoErrf er ''error unexpected'' []"

definition AssertErrf :: "any \<Rightarrow> string \<Rightarrow> any list \<Rightarrow> prog" where
  "AssertErrf er desc args =
     (if er = GNil then
        seq (Fail desc args)
          (seq (ret (inT (T_Logf ''requires error, but found nil'' []))) (haltT T_FailNow))
      else Pass desc args)"

definition AssertErr :: "any \<Rightarrow> prog" where
  "AssertErr er = AssertErrf er ''error expected'' []"


subsection \<open>Auxiliary helpers\<close>












text \<open>
  \<open>Getenv\<close> reads the process environment, of which the model keeps what \<open>Setenv\<close> has
  stored; an unset variable reads as the empty string.
\<close>

definition Getenv :: "string \<Rightarrow> R \<Rightarrow> string" where
  "Getenv key r = (case map_of (env (T r)) key of Some v \<Rightarrow> v | None \<Rightarrow> [])"







subsection \<open>Assertions on values\<close>









text \<open>
  \<open>fmt.Sprintf\<close> builds the default messages; it is a parameter of the assertions that
  use it. \<open>msg\<close> is the variadic tail: the first message given replaces the default.
\<close>

definition AssertNil :: "(string \<Rightarrow> any list \<Rightarrow> string) \<Rightarrow> any \<Rightarrow> string list \<Rightarrow> prog" where
  "AssertNil Sprintf v msg =
     (if v \<noteq> GNil then
        Fail (if length msg > 0 then msg ! 0 else Sprintf ''Expected nil, got %v'' [v]) []
      else Pass ''Value is nil'' [])"

definition AssertNotNil :: "any \<Rightarrow> string list \<Rightarrow> prog" where
  "AssertNotNil v msg =
     (if v = GNil then
        Fail (if length msg > 0 then msg ! 0 else ''Expected non-nil value, got nil'') []
      else Pass ''Value is not nil'' [])"











section \<open>Observations\<close>

text \<open>
  What a call added to the log of the runner's context, and the two things an assertion
  can record there. A pass is one new line carrying the check mark, with the \<open>failed\<close>
  flag untouched; a failure is a new line carrying the ballot cross (possibly followed by
  more lines) with the \<open>failed\<close> flag set.
\<close>

definition grows :: "R \<Rightarrow> R \<Rightarrow> bool" where
  "grows r r' = (take (length (events (T r))) (events (T r')) = events (T r))"

definition newEvents :: "R \<Rightarrow> R \<Rightarrow> event list" where
  "newEvents r r' = drop (length (events (T r))) (events (T r'))"

fun hasMark :: "string \<Rightarrow> event \<Rightarrow> bool" where
  "hasMark m (Printf format (GString tag # args)) = (tag = m)"
| "hasMark m _ = False"

definition recordsPass :: "R \<Rightarrow> R \<Rightarrow> bool" where
  "recordsPass r r' =
     (grows r r' \<and> length (newEvents r r') = 1 \<and> hasMark checkMark (hd (newEvents r r'))
      \<and> failed (T r') = failed (T r))"

definition recordsFailure :: "R \<Rightarrow> R \<Rightarrow> bool" where
  "recordsFailure r r' =
     (grows r r' \<and> newEvents r r' \<noteq> [] \<and> hasMark ballotX (hd (newEvents r r'))
      \<and> failed (T r'))"

text \<open>A fresh top-level context, an empty store and a runner on the fresh context.\<close>

definition T0 :: testing_T where
  "T0 = \<lparr>tname = ''Test'', events = [], failed = False, skipped = False, finished = False,
         isParallel = False, env = [], cleanups = []\<rparr>"

definition emptyStore :: store where
  "emptyStore =
     \<lparr>cells = (\<lambda>a. \<lparr>name = [], input = GNil, want = GNil, wantErr = False, err = GNil\<rparr>),
      fresh = 0\<rparr>"

definition R0 :: R where
  "R0 = New T0 ''suite'' 0"

text \<open>A builder named \<open>a\<close> on the empty store, and the Case built from it.\<close>

definition builderA :: "ptr \<times> store" where
  "builderA = CaseBuilder ''a'' emptyStore"

definition caseA :: "ptr \<times> store" where
  "caseA = chain Build builderA"

text \<open>
  Test bodies. A statement of a subtest body works on the runner (\<open>onRunner\<close>) or on the
  subtest's own context (\<open>onSub\<close>); \<open>subSeq\<close> composes two parts of a body.
\<close>

definition onRunner :: "prog \<Rightarrow> subtest" where
  "onRunner p tt r = (case p r of (oc, r') \<Rightarrow> (oc, tt, r'))"


definition subSeq :: "subtest \<Rightarrow> subtest \<Rightarrow> subtest" where
  "subSeq g h tt r =
     (case g tt r of (Returned, tt', r') \<Rightarrow> h tt' r' | (oc, tt', r') \<Rightarrow> (oc, tt', r'))"




text \<open>A sequence of calls of \<open>Case\<close>, each with its format and arguments.\<close>

definition announcements :: "(string \<times> any list) list \<Rightarrow> prog" where
  "announcements cs = body (map (\<lambda>c. Case (fst c) (snd c)) cs)"





text \<open>A stand-in for \<open>fmt.Sprintf\<close> in the examples: it hands the format back.\<close>

definition noFormat :: "string \<Rightarrow> any list \<Rightarrow> string" where
  "noFormat format args = format"







section \<open>Properties of Case and its builder\<close>

lemmas builder_defs = alloc_def NewCase_def CaseBuilder_def caseBuilder_Name_def
  caseBuilder_Input_def caseBuilder_Want_def caseBuilder_WantErr_def caseBuilder_Err_def
  Build_def chain_def Name_def Input_def Want_def WantErr_def Err_def

lemma calls_ptr: "fst (calls ss (b, s)) = b"
proof (induction ss arbitrary: s)
  case Nil
  then show ?case by simp
next
  case (Cons x xs)
  then show ?case
    by (cases x) (simp_all add: builder_defs)
qed

lemma lastOr_Cons: "lastOr d (v # vs) = lastOr v vs"
  by (simp add: lastOr_def)

lemma lastOr_Nil: "lastOr d [] = d"
  by (simp add: lastOr_def)

text \<open>
  After any sequence of setter calls the builder's struct holds, field by field, the
  last value written, and no other struct of the store has changed.
\<close>

lemma calls_cells:
  "cells (snd (calls ss (b, s))) b =
     \<lparr>name = lastOr (name (cells s b)) (nameWrites ss),
      input = lastOr (input (cells s b)) (inputWrites ss),
      want = lastOr (want (cells s b)) (wantWrites ss),
      wantErr = lastOr (wantErr (cells s b)) (wantErrWrites ss),
      err = lastOr (err (cells s b)) (errWrites ss)\<rparr>"
proof (induction ss arbitrary: s)
  case Nil
  then show ?case by (simp add: lastOr_Nil)
next
  case (Cons x xs)
  show ?case
    by (cases x) (simp_all add: builder_defs Cons.IH lastOr_Cons)
qed

lemma calls_other: "c \<noteq> b \<Longrightarrow> cells (snd (calls ss (b, s))) c = cells s c"
proof (induction ss arbitrary: s)
  case Nil
  then show ?case by simp
next
  case (Cons x xs)
  then show ?case
    by (cases x) (simp_all add: builder_defs)
qed

text \<open>
  C2. The Case made by \<open>NewCase(name, input, want, wantErr, err)\<close> and the Case built by
  \<open>CaseBuilder(name).Input(input).Want(want).WantErr(wantErr).Err(err).Build()\<close> answer
  every accessor alike, with the values given. And for a builder started with \<open>name\<close> and
  any sequence of setter calls, in any order and with any repetitions, the built Case
  shows for each field the value of the last call that set it, or the initial value (the
  given name, nil, nil, false, nil) if no call set it.
\<close>

theorem C2_construction_paths_agree:
  "(let direct = NewCase nm inp wnt we er s;
        built = chain Build (chain (caseBuilder_Err er) (chain (caseBuilder_WantErr we)
                  (chain (caseBuilder_Want wnt) (chain (caseBuilder_Input inp)
                    (CaseBuilder nm s)))))
    in Name (snd direct) (fst direct) = nm \<and> Name (snd built) (fst built) = nm
     \<and> Input (snd direct) (fst direct) = inp \<and> Input (snd built) (fst built) = inp
     \<and> Want (snd direct) (fst direct) = wnt \<and> Want (snd built) (fst built) = wnt
     \<and> WantErr (snd direct) (fst direct) = we \<and> WantErr (snd built) (fst built) = we
     \<and> Err (snd direct) (fst direct) = er \<and> Err (snd built) (fst built) = er)
   \<and> (let built = chain Build (calls ss (CaseBuilder nm s))
      in Name (snd built) (fst built) = lastOr nm (nameWrites ss)
       \<and> Input (snd built) (fst built) = lastOr GNil (inputWrites ss)
       \<and> Want (snd built) (fst built) = lastOr GNil (wantWrites ss)
       \<and> WantErr (snd built) (fst built) = lastOr False (wantErrWrites ss)
       \<and> Err (snd built) (fst built) = lastOr GNil (errWrites ss))"
proof -
  obtain b s1 where cb: "CaseBuilder nm s = (b, s1)" by (cases "CaseBuilder nm s")
  have init: "cells s1 b = \<lparr>name = nm, input = GNil, want = GNil, wantErr = False, err = GNil\<rparr>"
    using cb by (auto simp: CaseBuilder_def alloc_def)
  have p: "fst (calls ss (b, s1)) = b" by (rule calls_ptr)
  have c: "cells (snd (calls ss (b, s1))) b =
     \<lparr>name = lastOr nm (nameWrites ss), input = lastOr GNil (inputWrites ss),
      want = lastOr GNil (wantWrites ss), wantErr = lastOr False (wantErrWrites ss),
      err = lastOr GNil (errWrites ss)\<rparr>"
    by (simp add: calls_cells init)
  have part2: "(let built = chain Build (calls ss (CaseBuilder nm s))
      in Name (snd built) (fst built) = lastOr nm (nameWrites ss)
       \<and> Input (snd built) (fst built) = lastOr GNil (inputWrites ss)
       \<and> Want (snd built) (fst built) = lastOr GNil (wantWrites ss)
       \<and> WantErr (snd built) (fst built) = lastOr False (wantErrWrites ss)
       \<and> Err (snd built) (fst built) = lastOr GNil (errWrites ss))"
    using p c by (simp add: cb chain_def Build_def Name_def Input_def Want_def WantErr_def Err_def)
  have part1: "(let direct = NewCase nm inp wnt we er s;
        built = chain Build (chain (caseBuilder_Err er) (chain (caseBuilder_WantErr we)
                  (chain (caseBuilder_Want wnt) (chain (caseBuilder_Input inp)
                    (CaseBuilder nm s)))))
    in Name (snd direct) (fst direct) = nm \<and> Name (snd built) (fst built) = nm
     \<and> Input (snd direct) (fst direct) = inp \<and> Input (snd built) (fst built) = inp
     \<and> Want (snd direct) (fst direct) = wnt \<and> Want (snd built) (fst built) = wnt
     \<and> WantErr (snd direct) (fst direct) = we \<and> WantErr (snd built) (fst built) = we
     \<and> Err (snd direct) (fst direct) = er \<and> Err (snd built) (fst built) = er)"
    by (simp add: builder_defs Let_def)
  show ?thesis using part1 part2 by blast
qed

text \<open>
  C3, as stated, fails: \<open>Build\<close> hands out the builder's own struct. With
  \<open>b := CaseBuilder("a")\<close> and \<open>c := b.Build()\<close>, \<open>c.Name()\<close> is \<open>a\<close>; after \<open>b.Name("z")\<close>
  the same \<open>c\<close> answers \<open>z\<close>.
\<close>

theorem C3_build_does_not_freeze:
  "Name (snd caseA) (fst caseA) = ''a'' \<and>
   Name (snd (caseBuilder_Name ''z'' (fst builderA) (snd caseA))) (fst caseA) = ''z''"
  by (simp add: caseA_def builderA_def builder_defs emptyStore_def)

text \<open>
  C3, amended. \<open>Build\<close> returns the builder's own struct and changes nothing in the
  store, so a further \<open>Build\<close> changes no accessor of the Case \<open>c\<close> it handed out. Setter
  calls on the same builder after \<open>Build\<close> show through \<open>c\<close>: each accessor of \<open>c\<close> answers
  the last value written to its field since, or its value at \<open>Build\<close> when the field was
  not written. Setter calls on any other builder leave every accessor of \<open>c\<close> as it was.
\<close>

theorem C3_build_shares_the_builder:
  "fst (Build b s) = b \<and> snd (Build b s) = s
   \<and> (let c = fst (Build b s); later = chain Build (calls ss (b, s))
      in Name (snd later) c = lastOr (Name s c) (nameWrites ss)
       \<and> Input (snd later) c = lastOr (Input s c) (inputWrites ss)
       \<and> Want (snd later) c = lastOr (Want s c) (wantWrites ss)
       \<and> WantErr (snd later) c = lastOr (WantErr s c) (wantErrWrites ss)
       \<and> Err (snd later) c = lastOr (Err s c) (errWrites ss))
   \<and> (b' \<noteq> b \<longrightarrow>
        (let c = fst (Build b s); later = chain Build (calls ss (b', s))
         in Name (snd later) c = Name s c \<and> Input (snd later) c = Input s c
          \<and> Want (snd later) c = Want s c \<and> WantErr (snd later) c = WantErr s c
          \<and> Err (snd later) c = Err s c))"
proof -
  have a: "fst (Build b s) = b \<and> snd (Build b s) = s" by (simp add: Build_def)
  have c: "cells (snd (chain Build (calls ss (b, s)))) b =
     \<lparr>name = lastOr (name (cells s b)) (nameWrites ss),
      input = lastOr (input (cells s b)) (inputWrites ss),
      want = lastOr (want (cells s b)) (wantWrites ss),
      wantErr = lastOr (wantErr (cells s b)) (wantErrWrites ss),
      err = lastOr (err (cells s b)) (errWrites ss)\<rparr>"
    by (simp add: chain_def Build_def calls_cells)
  have o: "b' \<noteq> b \<Longrightarrow> cells (snd (chain Build (calls ss (b', s)))) b = cells s b"
    by (simp add: chain_def Build_def calls_other)
  show ?thesis
    using a c o by (simp add: Let_def Name_def Input_def Want_def WantErr_def Err_def)
qed

theorem C3_build_shares_the_builder_witness:
  "(1::nat) \<noteq> 0 \<and>
   Name (snd (chain Build (calls [SetName ''other''] (1, snd (CaseBuilder ''b''
           (snd (CaseBuilder ''a'' emptyStore))))))) 0 = ''a''"
  using C3_build_shares_the_builder [of 0 "snd (CaseBuilder ''b'' (snd (CaseBuilder ''a'' emptyStore)))"
      "[SetName ''other'']" 1]
  by (simp add: builder_defs emptyStore_def Let_def)



section \<open>Properties of the runner\<close>

subsection \<open>The case counter never goes down\<close>

lemma Case_result:
  "Case format args r =
     (Returned,
      r\<lparr>caseNum := caseNum r + 1,
        prefix := ''Case '' @ Itoa (caseNum r + 1) @ '' -> '',
        T := (T r)\<lparr>events := events (T r) @
               [Printf (''Case '' @ Itoa (caseNum r + 1) @ '' -> '' @ format) args]\<rparr>\<rparr>)"
  by (simp add: Case_def Let_def inT_def T_Logf_def)



























subsection \<open>Pass, Fail and the conditional assertions\<close>

lemma prependTag_Cons: "prependTag tag args = tag # args"
  by (cases args) (simp_all add: prependTag_def)

lemma marks_differ: "checkMark \<noteq> ballotX"
  by (simp add: checkMark_def ballotX_def)

lemma Pass_result:
  "Pass format args r =
     (Returned, r\<lparr>T := (T r)\<lparr>events := events (T r) @
        [Printf (CHR 0x09 # ''%s '' @ format) (GString checkMark # args)]\<rparr>\<rparr>)"
  by (simp add: Pass_def ret_def inT_def T_Logf_def prependTag_Cons)

lemma Fail_result:
  "Fail format args r =
     (Returned, r\<lparr>T := (T r)\<lparr>events := events (T r) @
        [Printf (CHR 0x09 # ''%s '' @ format) (GString ballotX # args)], failed := True\<rparr>\<rparr>)"
  by (simp add: Fail_def ret_def inT_def T_Errorf_def T_Fail_def T_Logf_def prependTag_Cons)

lemma Pass_records: "recordsPass r (snd (Pass format args r))"
  by (simp add: Pass_result recordsPass_def grows_def newEvents_def)

lemma Pass_not_failure: "\<not> recordsFailure r (snd (Pass format args r))"
  by (simp add: Pass_result recordsFailure_def grows_def newEvents_def marks_differ)

lemma Fail_records: "recordsFailure r (snd (Fail format args r))"
  by (simp add: Fail_result recordsFailure_def grows_def newEvents_def)

lemma Fail_not_pass: "\<not> recordsPass r (snd (Fail format args r))"
  using marks_differ
  by (auto simp add: Fail_result recordsPass_def grows_def newEvents_def)

text \<open>
  C5. \<open>Require(cond, desc, args...)\<close> is \<open>Pass(desc, args...)\<close> when \<open>cond\<close> is true and
  \<open>Fail(desc, args...)\<close> when it is false: a pass is recorded in the first case, a failure
  in the second. In both cases the call returns, and the statements after it in the test
  body run on the runner it leaves.
\<close>

theorem C5_require_dispatches_and_goes_on:
  "Require True desc args r = Pass desc args r
   \<and> Require False desc args r = Fail desc args r
   \<and> recordsPass r (snd (Require True desc args r))
   \<and> recordsFailure r (snd (Require False desc args r))
   \<and> fst (Require cond desc args r) = Returned
   \<and> body (Require cond desc args # rest) r = body rest (snd (Require cond desc args r))"
proof -
  have ret: "fst (Require cond desc args r) = Returned"
    by (simp add: Require_def Pass_result Fail_result)
  have go: "body (Require cond desc args # rest) r = body rest (snd (Require cond desc args r))"
    using ret by (cases "Require cond desc args r") (simp add: seq_def)
  show ?thesis
    using ret go by (simp add: Require_def Pass_records Fail_records)
qed

lemma FailNow_False_result:
  "FailNow False desc args r =
     (Exited, (snd (Fail desc args r))\<lparr>T := (T (snd (Fail desc args r)))\<lparr>finished := True\<rparr>\<rparr>)"
  by (simp add: FailNow_def seq_def Fail_result haltT_def T_FailNow_def T_Fail_def)

text \<open>
  C6. \<open>FailNow(cond, desc, args...)\<close> with a true condition is \<open>Pass\<close>: it records a pass,
  returns, and the rest of the body runs. With a false condition it does what \<open>Fail\<close> does
  (a failure is recorded), marks the context finished and leaves by \<open>runtime.Goexit\<close>: the
  result of a test body, or of a subtest body, that continues after the call is the
  result of the call itself, whatever the statements after it are.
\<close>

theorem C6_failnow_halts_on_false:
  "FailNow True desc args r = Pass desc args r
   \<and> fst (FailNow True desc args r) = Returned
   \<and> recordsPass r (snd (FailNow True desc args r))
   \<and> body (FailNow True desc args # rest) r = body rest (snd (FailNow True desc args r))
   \<and> fst (FailNow False desc args r) = Exited
   \<and> snd (FailNow False desc args r) =
       (snd (Fail desc args r))\<lparr>T := (T (snd (Fail desc args r)))\<lparr>finished := True\<rparr>\<rparr>
   \<and> recordsFailure r (snd (FailNow False desc args r))
   \<and> finished (T (snd (FailNow False desc args r)))
   \<and> body (FailNow False desc args # rest) r = FailNow False desc args r
   \<and> subSeq (onRunner (FailNow False desc args)) h tt r =
       onRunner (FailNow False desc args) tt r"
proof -
  have t: "FailNow True desc args r = Pass desc args r" by (simp add: FailNow_def)
  have go: "body (FailNow True desc args # rest) r = body rest (snd (FailNow True desc args r))"
    by (simp add: t seq_def Pass_result)
  have rec: "recordsFailure r (snd (FailNow False desc args r))"
    by (simp add: FailNow_False_result Fail_result recordsFailure_def grows_def newEvents_def)
  have stop: "body (FailNow False desc args # rest) r = FailNow False desc args r"
    by (simp add: seq_def FailNow_False_result)
  have sub: "subSeq (onRunner (FailNow False desc args)) h tt r =
       onRunner (FailNow False desc args) tt r"
    by (simp add: subSeq_def onRunner_def FailNow_False_result)
  show ?thesis
    using t go rec stop sub
    by (simp add: Pass_records) (simp add: FailNow_False_result Pass_result Fail_result)
qed


lemma AssertNoErrf_Nil: "AssertNoErrf GNil desc args r = Pass desc args r"
  by (simp add: AssertNoErrf_def)

lemma AssertNoErrf_error:
  "er \<noteq> GNil \<Longrightarrow> AssertNoErrf er desc args r =
     (Exited, r\<lparr>T := (T r)\<lparr>events := events (T r) @
        [Printf (CHR 0x09 # ''%s '' @ desc) (GString ballotX # args),
         Printf ''requires no error, but found: %v'' [er]],
        failed := True, finished := True\<rparr>\<rparr>)"
  by (simp add: AssertNoErrf_def seq_def Fail_result ret_def inT_def T_Logf_def haltT_def
      T_FailNow_def T_Fail_def)

lemma AssertErrf_error: "er \<noteq> GNil \<Longrightarrow> AssertErrf er desc args r = Pass desc args r"
  by (simp add: AssertErrf_def)

lemma AssertErrf_Nil:
  "AssertErrf GNil desc args r =
     (Exited, r\<lparr>T := (T r)\<lparr>events := events (T r) @
        [Printf (CHR 0x09 # ''%s '' @ desc) (GString ballotX # args),
         Printf ''requires error, but found nil'' []],
        failed := True, finished := True\<rparr>\<rparr>)"
  by (simp add: AssertErrf_def seq_def Fail_result ret_def inT_def T_Logf_def haltT_def
      T_FailNow_def T_Fail_def)

text \<open>
  C7. \<open>AssertNoErrf\<close> records a pass exactly when the error is nil, and then returns; for
  a non-nil error it records a failure, logs \<open>requires no error, but found: %v\<close> with the
  error as the argument (the host prints an error's string form for \<open>%v\<close>), marks the
  context finished and halts, so nothing after it is reached. \<open>AssertErrf\<close> records a pass
  exactly when the error is non-nil; for nil it records a failure, logs
  \<open>requires error, but found nil\<close> and halts. \<open>AssertNoErr\<close> and \<open>AssertErr\<close> are the same
  assertions with the default descriptions.
\<close>

theorem C7_error_assertions:
  "(recordsPass r (snd (AssertNoErrf er desc args r)) \<longleftrightarrow> er = GNil)
   \<and> (recordsFailure r (snd (AssertNoErrf er desc args r)) \<longleftrightarrow> er \<noteq> GNil)
   \<and> fst (AssertNoErrf er desc args r) = (if er = GNil then Returned else Exited)
   \<and> finished (T (snd (AssertNoErrf er desc args r))) =
       (if er = GNil then finished (T r) else True)
   \<and> newEvents r (snd (AssertNoErrf er desc args r)) =
       (if er = GNil then [Printf (CHR 0x09 # ''%s '' @ desc) (GString checkMark # args)]
        else [Printf (CHR 0x09 # ''%s '' @ desc) (GString ballotX # args),
              Printf ''requires no error, but found: %v'' [er]])
   \<and> body (AssertNoErrf er desc args # rest) r =
       (if er = GNil then body rest (snd (AssertNoErrf er desc args r))
        else AssertNoErrf er desc args r)
   \<and> AssertNoErr er r = AssertNoErrf er ''error unexpected'' [] r
   \<and> (recordsPass r (snd (AssertErrf er desc args r)) \<longleftrightarrow> er \<noteq> GNil)
   \<and> (recordsFailure r (snd (AssertErrf er desc args r)) \<longleftrightarrow> er = GNil)
   \<and> fst (AssertErrf er desc args r) = (if er = GNil then Exited else Returned)
   \<and> finished (T (snd (AssertErrf er desc args r))) =
       (if er = GNil then True else finished (T r))
   \<and> newEvents r (snd (AssertErrf er desc args r)) =
       (if er = GNil then [Printf (CHR 0x09 # ''%s '' @ desc) (GString ballotX # args),
                          Printf ''requires error, but found nil'' []]
        else [Printf (CHR 0x09 # ''%s '' @ desc) (GString checkMark # args)])
   \<and> body (AssertErrf er desc args # rest) r =
       (if er = GNil then AssertErrf er desc args r
        else body rest (snd (AssertErrf er desc args r)))
   \<and> AssertErr er r = AssertErrf er ''error expected'' [] r"
proof (cases "er = GNil")
  case True
  note a = AssertNoErrf_Nil [of desc args r]
  note b = AssertErrf_Nil [of desc args r]
  have noerr: "(recordsPass r (snd (AssertNoErrf er desc args r)) \<longleftrightarrow> er = GNil)
   \<and> (recordsFailure r (snd (AssertNoErrf er desc args r)) \<longleftrightarrow> er \<noteq> GNil)
   \<and> fst (AssertNoErrf er desc args r) = (if er = GNil then Returned else Exited)
   \<and> finished (T (snd (AssertNoErrf er desc args r))) =
       (if er = GNil then finished (T r) else True)
   \<and> newEvents r (snd (AssertNoErrf er desc args r)) =
       (if er = GNil then [Printf (CHR 0x09 # ''%s '' @ desc) (GString checkMark # args)]
        else [Printf (CHR 0x09 # ''%s '' @ desc) (GString ballotX # args),
              Printf ''requires no error, but found: %v'' [er]])
   \<and> body (AssertNoErrf er desc args # rest) r =
       (if er = GNil then body rest (snd (AssertNoErrf er desc args r))
        else AssertNoErrf er desc args r)"
    using True Pass_records [of r desc args] Pass_not_failure [of r desc args]
    by (simp add: a seq_def) (simp add: Pass_result newEvents_def)
  have err: "(recordsPass r (snd (AssertErrf er desc args r)) \<longleftrightarrow> er \<noteq> GNil)
   \<and> (recordsFailure r (snd (AssertErrf er desc args r)) \<longleftrightarrow> er = GNil)
   \<and> fst (AssertErrf er desc args r) = (if er = GNil then Exited else Returned)
   \<and> finished (T (snd (AssertErrf er desc args r))) =
       (if er = GNil then True else finished (T r))
   \<and> newEvents r (snd (AssertErrf er desc args r)) =
       (if er = GNil then [Printf (CHR 0x09 # ''%s '' @ desc) (GString ballotX # args),
                          Printf ''requires error, but found nil'' []]
        else [Printf (CHR 0x09 # ''%s '' @ desc) (GString checkMark # args)])
   \<and> body (AssertErrf er desc args # rest) r =
       (if er = GNil then AssertErrf er desc args r
        else body rest (snd (AssertErrf er desc args r)))"
    using True
    by (simp add: b recordsPass_def recordsFailure_def grows_def newEvents_def seq_def)
  show ?thesis
    using noerr err by (simp add: AssertNoErr_def AssertErr_def)
next
  case False
  have a: "AssertNoErrf er desc args r =
     (Exited, r\<lparr>T := (T r)\<lparr>events := events (T r) @
        [Printf (CHR 0x09 # ''%s '' @ desc) (GString ballotX # args),
         Printf ''requires no error, but found: %v'' [er]],
        failed := True, finished := True\<rparr>\<rparr>)"
    using False by (rule AssertNoErrf_error)
  have b: "AssertErrf er desc args r = Pass desc args r"
    using False by (rule AssertErrf_error)
  have noerr: "(recordsPass r (snd (AssertNoErrf er desc args r)) \<longleftrightarrow> er = GNil)
   \<and> (recordsFailure r (snd (AssertNoErrf er desc args r)) \<longleftrightarrow> er \<noteq> GNil)
   \<and> fst (AssertNoErrf er desc args r) = (if er = GNil then Returned else Exited)
   \<and> finished (T (snd (AssertNoErrf er desc args r))) =
       (if er = GNil then finished (T r) else True)
   \<and> newEvents r (snd (AssertNoErrf er desc args r)) =
       (if er = GNil then [Printf (CHR 0x09 # ''%s '' @ desc) (GString checkMark # args)]
        else [Printf (CHR 0x09 # ''%s '' @ desc) (GString ballotX # args),
              Printf ''requires no error, but found: %v'' [er]])
   \<and> body (AssertNoErrf er desc args # rest) r =
       (if er = GNil then body rest (snd (AssertNoErrf er desc args r))
        else AssertNoErrf er desc args r)"
    using False
    by (simp add: a recordsPass_def recordsFailure_def grows_def newEvents_def seq_def)
  have err: "(recordsPass r (snd (AssertErrf er desc args r)) \<longleftrightarrow> er \<noteq> GNil)
   \<and> (recordsFailure r (snd (AssertErrf er desc args r)) \<longleftrightarrow> er = GNil)
   \<and> fst (AssertErrf er desc args r) = (if er = GNil then Exited else Returned)
   \<and> finished (T (snd (AssertErrf er desc args r))) =
       (if er = GNil then True else finished (T r))
   \<and> newEvents r (snd (AssertErrf er desc args r)) =
       (if er = GNil then [Printf (CHR 0x09 # ''%s '' @ desc) (GString ballotX # args),
                          Printf ''requires error, but found nil'' []]
        else [Printf (CHR 0x09 # ''%s '' @ desc) (GString checkMark # args)])
   \<and> body (AssertErrf er desc args # rest) r =
       (if er = GNil then AssertErrf er desc args r
        else body rest (snd (AssertErrf er desc args r)))"
    using False Pass_records [of r desc args] Pass_not_failure [of r desc args]
    by (simp add: b seq_def) (simp add: Pass_result newEvents_def)
  show ?thesis
    using noerr err by (simp add: AssertNoErr_def AssertErr_def)
qed


subsection \<open>Case numbering\<close>

lemma announcements_Nil: "announcements [] r = (Returned, r)"
  by (simp add: announcements_def ret_def)

lemma announcements_Cons:
  "announcements (c # cs) r = announcements cs (snd (Case (fst c) (snd c) r))"
  by (simp add: announcements_def seq_def Case_result)


lemma announcements_caseNum:
  "caseNum (snd (announcements cs r)) = caseNum r + int (length cs)"
  by (induction cs arbitrary: r)
    (simp_all add: announcements_Nil announcements_Cons Case_result)


lemma announcements_append:
  "announcements (cs @ ds) r = announcements ds (snd (announcements cs r))"
  by (induction cs arbitrary: r) (simp_all add: announcements_Nil announcements_Cons)

text \<open>
  Every announcement puts a line into the log, so the counter of a runner made by \<open>New\<close>
  stays below the number of lines its context holds.
\<close>

lemma announcements_log:
  "length (events (T (snd (announcements cs r)))) = length (events (T r)) + length cs"
  by (induction cs arbitrary: r)
    (simp_all add: announcements_Nil announcements_Cons Case_result)

lemma counter_below_log:
  "caseNum (snd (announcements cs (New t ttl now))) <
     int (length (events (T (snd (announcements cs (New t ttl now))))))"
  by (simp add: announcements_caseNum announcements_log New_def T_Log_def)




subsection \<open>Helpers that announce\<close>






















subsection \<open>GNil and containment assertions\<close>

lemma AssertNil_pass: "recordsPass r (snd (AssertNil Sprintf v msg r)) = (v = GNil)"
  by (simp add: AssertNil_def Pass_records Fail_not_pass)

lemma AssertNil_failure: "recordsFailure r (snd (AssertNil Sprintf v msg r)) = (v \<noteq> GNil)"
  by (simp add: AssertNil_def Fail_records Pass_not_failure)

lemma AssertNotNil_pass: "recordsPass r (snd (AssertNotNil v msg r)) = (v \<noteq> GNil)"
  by (simp add: AssertNotNil_def Pass_records Fail_not_pass)

lemma AssertNotNil_failure: "recordsFailure r (snd (AssertNotNil v msg r)) = (v = GNil)"
  by (simp add: AssertNotNil_def Fail_records Pass_not_failure)

text \<open>
  C1, as stated, fails: a nil \<open>*int\<close> passed to \<open>AssertNil\<close> is a nil reference inside the
  \<open>any\<close>, yet \<open>value != nil\<close> holds for it, so \<open>AssertNil\<close> records a failure and
  \<open>AssertNotNil\<close> records a pass.
\<close>

theorem C1_typed_nil_is_not_nil:
  "isNilReference (GNilPtr TInt)
   \<and> recordsFailure R0 (snd (AssertNil noFormat (GNilPtr TInt) [] R0))
   \<and> \<not> recordsPass R0 (snd (AssertNil noFormat (GNilPtr TInt) [] R0))
   \<and> recordsPass R0 (snd (AssertNotNil (GNilPtr TInt) [] R0))
   \<and> \<not> recordsFailure R0 (snd (AssertNotNil (GNilPtr TInt) [] R0))"
  by (simp add: AssertNil_def AssertNotNil_def Fail_records Fail_not_pass Pass_records
      Pass_not_failure)

text \<open>
  C1, amended. \<open>AssertNil\<close> records a pass exactly when its argument is the nil interface
  value (\<open>value == nil\<close>), and a failure for every other value; \<open>AssertNotNil\<close> records a
  failure exactly for the nil interface value and a pass for every other value. A nil
  pointer or nil slice boxed in the \<open>any\<close> counts as non-nil for both. Neither assertion
  halts.
\<close>

theorem C1_nil_means_nil_interface:
  "(recordsPass r (snd (AssertNil Sprintf v msg r)) \<longleftrightarrow> v = GNil)
   \<and> (recordsFailure r (snd (AssertNil Sprintf v msg r)) \<longleftrightarrow> v \<noteq> GNil)
   \<and> (recordsFailure r (snd (AssertNotNil v msg r)) \<longleftrightarrow> v = GNil)
   \<and> (recordsPass r (snd (AssertNotNil v msg r)) \<longleftrightarrow> v \<noteq> GNil)
   \<and> fst (AssertNil Sprintf v msg r) = Returned
   \<and> fst (AssertNotNil v msg r) = Returned
   \<and> recordsFailure r (snd (AssertNil Sprintf (GNilPtr ty) msg r))
   \<and> recordsFailure r (snd (AssertNil Sprintf (GNilSlice ty) msg r))
   \<and> recordsPass r (snd (AssertNotNil (GNilPtr ty) msg r))
   \<and> recordsPass r (snd (AssertNotNil (GNilSlice ty) msg r))"
proof -
  have ret: "fst (AssertNil Sprintf v msg r) = Returned \<and> fst (AssertNotNil v msg r) = Returned"
    by (simp add: AssertNil_def AssertNotNil_def Pass_result Fail_result)
  show ?thesis
    using ret
    by (simp add: AssertNil_pass AssertNil_failure AssertNotNil_pass AssertNotNil_failure)
qed















subsection \<open>The table-driven batch\<close>












end
